theory Spec2Isabelle
  imports Complex_Main "HOL-Library.Char_ord" "HOL-Library.List_Lexorder" "HOL-Library.Sublist"
    "HOL-Library.AList"
begin

section \<open>Python values\<close>

text \<open>
  The values that reach the trigger handler of \<^verbatim>\<open>trigger_handler.py\<close>: what a JSON body
  decodes to (\<^verbatim>\<open>None\<close>, \<^verbatim>\<open>bool\<close>, \<^verbatim>\<open>int\<close>, \<^verbatim>\<open>float\<close>, \<^verbatim>\<open>str\<close>,
  \<^verbatim>\<open>list\<close>, \<^verbatim>\<open>dict\<close> with string keys) and the \<^verbatim>\<open>datetime\<close> of an event's
  timestamp. A finite float is the rational number it denotes (NaN and the infinities are
  not modelled); a string is its UTF-8 bytes, whose lexicographic order is the order of the
  code points; a dict is an association list in insertion order, with distinct keys; a
  datetime is an instant on one time line.
\<close>

datatype pyval =
    PNone
  | PBool bool
  | PInt int
  | PFloat rat
  | PStr string
  | PList "pyval list"
  | PDict "(string \<times> pyval) list"
  | PDatetime int

datatype py_exception = TypeError | TransportError nat

text \<open>The number a \<^verbatim>\<open>bool\<close>, \<^verbatim>\<open>int\<close> or \<^verbatim>\<open>float\<close> stands for in a comparison.\<close>

fun num_of :: "pyval \<Rightarrow> rat option" where
  "num_of (PBool b) = Some (if b then 1 else 0)"
| "num_of (PInt i) = Some (of_int i)"
| "num_of (PFloat r) = Some r"
| "num_of PNone = None"
| "num_of (PStr s) = None"
| "num_of (PList xs) = None"
| "num_of (PDict kvs) = None"
| "num_of (PDatetime t) = None"

text \<open>\<^verbatim>\<open>a == b\<close> on values that are neither lists nor dicts.\<close>

definition py_eq_atom :: "pyval \<Rightarrow> pyval \<Rightarrow> bool" where
  "py_eq_atom a b =
     (case (num_of a, num_of b) of
        (Some x, Some y) \<Rightarrow> x = y
      | _ \<Rightarrow>
        (case (a, b) of
           (PNone, PNone) \<Rightarrow> True
         | (PStr s, PStr t) \<Rightarrow> s = t
         | (PDatetime s, PDatetime t) \<Rightarrow> s = t
         | _ \<Rightarrow> False))"

text \<open>
  \<^verbatim>\<open>a == b\<close>. Lists are equal when they have the same length and equal items; dicts when
  they have the same number of keys and every key of the first is bound to an equal value
  in the second. It never raises on these values.
\<close>

fun py_eq :: "pyval \<Rightarrow> pyval \<Rightarrow> bool"
  and py_eq_list :: "pyval list \<Rightarrow> pyval list \<Rightarrow> bool"
  and dict_sub :: "(string \<times> pyval) list \<Rightarrow> (string \<times> pyval) list \<Rightarrow> bool"
  and dict_has :: "string \<Rightarrow> pyval \<Rightarrow> (string \<times> pyval) list \<Rightarrow> bool" where
  "py_eq a b =
     (case a of
        PList xs \<Rightarrow> (case b of PList ys \<Rightarrow> py_eq_list xs ys | _ \<Rightarrow> False)
      | PDict xs \<Rightarrow>
          (case b of PDict ys \<Rightarrow> length xs = length ys \<and> dict_sub xs ys | _ \<Rightarrow> False)
      | _ \<Rightarrow> py_eq_atom a b)"
| "py_eq_list [] [] = True"
| "py_eq_list (x # xs) (y # ys) = (py_eq x y \<and> py_eq_list xs ys)"
| "py_eq_list [] (y # ys) = False"
| "py_eq_list (x # xs) [] = False"
| "dict_sub [] ys = True"
| "dict_sub ((k, v) # xs) ys = (dict_has k v ys \<and> dict_sub xs ys)"
| "dict_has k v [] = False"
| "dict_has k v ((k', v') # ys) = (if k = k' then py_eq v v' else dict_has k v ys)"


text \<open>
  The four ordering operators. \<^verbatim>\<open>a > b\<close> and its siblings are defined between two
  numbers, two strings, two datetimes and two lists; every other pair of operands raises
  \<^verbatim>\<open>TypeError\<close>.
\<close>

datatype cmp_op = Op_gt | Op_lt | Op_gte | Op_lte

fun op_holds :: "cmp_op \<Rightarrow> 'a::linorder \<Rightarrow> 'a \<Rightarrow> bool" where
  "op_holds Op_gt x y = (x > y)"
| "op_holds Op_lt x y = (x < y)"
| "op_holds Op_gte x y = (x \<ge> y)"
| "op_holds Op_lte x y = (x \<le> y)"

definition py_compare_atom :: "cmp_op \<Rightarrow> pyval \<Rightarrow> pyval \<Rightarrow> py_exception + bool" where
  "py_compare_atom opr a b =
     (case (num_of a, num_of b) of
        (Some x, Some y) \<Rightarrow> Inr (op_holds opr x y)
      | _ \<Rightarrow>
        (case (a, b) of
           (PStr s, PStr t) \<Rightarrow> Inr (op_holds opr s t)
         | (PDatetime s, PDatetime t) \<Rightarrow> Inr (op_holds opr s t)
         | _ \<Rightarrow> Inl TypeError))"

text \<open>
  Two lists are compared at the first position where their items are not equal, by the
  same operator (which may raise there); when one list is a prefix of the other, the
  lengths are compared.
\<close>

fun py_compare :: "cmp_op \<Rightarrow> pyval \<Rightarrow> pyval \<Rightarrow> py_exception + bool"
  and list_compare :: "cmp_op \<Rightarrow> pyval list \<Rightarrow> pyval list \<Rightarrow> py_exception + bool" where
  "py_compare opr a b =
     (case a of
        PList xs \<Rightarrow> (case b of PList ys \<Rightarrow> list_compare opr xs ys | _ \<Rightarrow> Inl TypeError)
      | _ \<Rightarrow> py_compare_atom opr a b)"
| "list_compare opr [] [] = Inr (op_holds opr (0::nat) 0)"
| "list_compare opr [] (y # ys) = Inr (op_holds opr 0 (Suc (length ys)))"
| "list_compare opr (x # xs) [] = Inr (op_holds opr (Suc (length xs)) 0)"
| "list_compare opr (x # xs) (y # ys) =
     (if py_eq x y then list_compare opr xs ys else py_compare opr x y)"

text \<open>
  \<^verbatim>\<open>x in c\<close>: membership by \<^verbatim>\<open>==\<close> in a list, substring in a string (the left operand
  must be a string), key membership in a dict (the left operand must be hashable). Any
  other container is not iterable.
\<close>

definition py_in :: "pyval \<Rightarrow> pyval \<Rightarrow> py_exception + bool" where
  "py_in x c =
     (case c of
        PList ys \<Rightarrow> Inr (list_ex (py_eq x) ys)
      | PStr s \<Rightarrow> (case x of PStr t \<Rightarrow> Inr (sublist t s) | _ \<Rightarrow> Inl TypeError)
      | PDict kvs \<Rightarrow>
          (case x of
             PList _ \<Rightarrow> Inl TypeError
           | PDict _ \<Rightarrow> Inl TypeError
           | PStr k \<Rightarrow> Inr (k \<in> set (map fst kvs))
           | _ \<Rightarrow> Inr False)
      | _ \<Rightarrow> Inl TypeError)"

section \<open>Data model\<close>

record EventPayload =
  event_id :: string
  event_type :: string
  source :: string
  timestamp :: int
  data :: "(string \<times> pyval) list"
  metadata :: "(string \<times> string) list"

datatype ConditionOperator =
  EQ | NE | GT | LT | GTE | LTE | CONTAINS | REGEX | IN | NOT_IN

datatype ActionType = HTTP | GRPC | KAFKA | REDIS | EMAIL | WEBHOOK

record Condition =
  field :: string
  operator :: ConditionOperator
  cond_value :: pyval

record Action =
  action_type :: ActionType
  target :: string
  payload :: "(string \<times> pyval) list"
  timeout :: rat
  retries :: int
  headers :: "(string \<times> string) list"

record TriggerConfig =
  name :: string
  conditions :: "Condition list"
  actions :: "Action list"
  enabled :: bool
  trigger_metadata :: "(string \<times> string) list"
  rate_limit :: "int option"
  cooldown :: "rat option"

section \<open>Condition evaluation\<close>

text \<open>
  \<^verbatim>\<open>_extract_value\<close>: \<^verbatim>\<open>dict.get\<close> gives \<^verbatim>\<open>None\<close> for a missing key, and so does every
  field path outside the grammar.
\<close>

definition extract_value :: "string \<Rightarrow> EventPayload \<Rightarrow> pyval" where
  "extract_value f p =
     (if f = ''event_type'' then PStr (event_type p)
      else if f = ''source'' then PStr (source p)
      else if prefix ''data.'' f then
        (case map_of (data p) (drop 5 f) of None \<Rightarrow> PNone | Some v \<Rightarrow> v)
      else if prefix ''metadata.'' f then
        (case map_of (metadata p) (drop 9 f) of None \<Rightarrow> PNone | Some s \<Rightarrow> PStr s)
      else PNone)"

text \<open>
  \<^verbatim>\<open>_evaluate_condition\<close>. The comparisons are Python's, so an operator applied to operands
  it is not defined on raises; \<^verbatim>\<open>contains\<close> guards the extracted value with
  \<^verbatim>\<open>isinstance(value, str)\<close>; \<^verbatim>\<open>regex\<close> has no branch and falls to the final
  \<^verbatim>\<open>else\<close>, which returns \<^verbatim>\<open>False\<close>.
\<close>

definition evaluate_condition :: "Condition \<Rightarrow> EventPayload \<Rightarrow> py_exception + bool" where
  "evaluate_condition c p =
     (let v = extract_value (field c) p in
      case operator c of
        EQ \<Rightarrow> Inr (py_eq v (cond_value c))
      | NE \<Rightarrow> Inr (\<not> py_eq v (cond_value c))
      | GT \<Rightarrow> py_compare Op_gt v (cond_value c)
      | LT \<Rightarrow> py_compare Op_lt v (cond_value c)
      | GTE \<Rightarrow> py_compare Op_gte v (cond_value c)
      | LTE \<Rightarrow> py_compare Op_lte v (cond_value c)
      | CONTAINS \<Rightarrow>
          (case v of
             PStr s \<Rightarrow>
               (case cond_value c of PStr t \<Rightarrow> Inr (sublist t s) | _ \<Rightarrow> Inl TypeError)
           | _ \<Rightarrow> Inr False)
      | IN \<Rightarrow> py_in v (cond_value c)
      | NOT_IN \<Rightarrow> map_sum id Not (py_in v (cond_value c))
      | REGEX \<Rightarrow> Inr False)"

text \<open>\<^verbatim>\<open>_evaluate_conditions\<close>: the loop returns at the first false condition.\<close>

fun evaluate_conditions :: "Condition list \<Rightarrow> EventPayload \<Rightarrow> py_exception + bool" where
  "evaluate_conditions [] p = Inr True"
| "evaluate_conditions (c # cs) p =
     (case evaluate_condition c p of
        Inl e \<Rightarrow> Inl e
      | Inr b \<Rightarrow> if \<not> b then Inr False else evaluate_conditions cs p)"

section \<open>Action dispatcher\<close>

text \<open>
  \<^verbatim>\<open>payload.dict()\<close>: the event as a dict, its fields in declaration order.
\<close>

definition event_dict :: "EventPayload \<Rightarrow> pyval" where
  "event_dict p =
     PDict [(''event_id'', PStr (event_id p)),
            (''event_type'', PStr (event_type p)),
            (''source'', PStr (source p)),
            (''timestamp'', PDatetime (timestamp p)),
            (''data'', PDict (data p)),
            (''metadata'', PDict (map (\<lambda>(k, v). (k, PStr v)) (metadata p)))]"

text \<open>
  \<^verbatim>\<open>{**action.payload, "event": payload.dict()}\<close>: a key \<^verbatim>\<open>"event"\<close> of the payload keeps
  its position and gets the new value; otherwise the binding is added last.
\<close>

definition merged_payload :: "Action \<Rightarrow> EventPayload \<Rightarrow> (string \<times> pyval) list" where
  "merged_payload a p = AList.update ''event'' (event_dict p) (payload a)"

text \<open>
  \<^verbatim>\<open>json.dumps\<close> encodes \<^verbatim>\<open>None\<close>, booleans, numbers, strings, lists and dicts with
  string keys, and raises \<^verbatim>\<open>TypeError\<close> on a value that holds anything else, here a
  \<^verbatim>\<open>datetime\<close>. The text it returns is named by the value it encodes.
\<close>

fun json_serializable :: "pyval \<Rightarrow> bool"
  and json_serializable_list :: "pyval list \<Rightarrow> bool"
  and json_serializable_dict :: "(string \<times> pyval) list \<Rightarrow> bool" where
  "json_serializable PNone = True"
| "json_serializable (PBool b) = True"
| "json_serializable (PInt i) = True"
| "json_serializable (PFloat r) = True"
| "json_serializable (PStr s) = True"
| "json_serializable (PList xs) = json_serializable_list xs"
| "json_serializable (PDict kvs) = json_serializable_dict kvs"
| "json_serializable (PDatetime t) = False"
| "json_serializable_list [] = True"
| "json_serializable_list (x # xs) = (json_serializable x \<and> json_serializable_list xs)"
| "json_serializable_dict [] = True"
| "json_serializable_dict ((k, v) # kvs) = (json_serializable v \<and> json_serializable_dict kvs)"

datatype json_text = Json_text pyval

definition json_dumps :: "pyval \<Rightarrow> py_exception + json_text" where
  "json_dumps v = (if json_serializable v then Inr (Json_text v) else Inl TypeError)"

text \<open>
  The library calls the executors make: \<^verbatim>\<open>session.post(target, json=, headers=, timeout=)\<close>,
  \<^verbatim>\<open>kafka_producer.send(target, message)\<close> with \<^verbatim>\<open>future.get(timeout=)\<close>,
  \<^verbatim>\<open>json.dumps(message)\<close> and \<^verbatim>\<open>redis_client.publish(target, text)\<close>.
\<close>

datatype library_call =
    HttpPost string "(string \<times> pyval) list" "(string \<times> string) list" rat
  | KafkaSend string "(string \<times> pyval) list" rat
  | JsonDumps "(string \<times> pyval) list"
  | RedisPublish string json_text

text \<open>The message dict a call is given, if it is given one.\<close>

fun message_of :: "library_call \<Rightarrow> (string \<times> pyval) list option" where
  "message_of (HttpPost tgt m hs tmo) = Some m"
| "message_of (KafkaSend tgt m tmo) = Some m"
| "message_of (JsonDumps m) = Some m"
| "message_of (RedisPublish tgt txt) = None"

text \<open>
  The sinks are outside the program. A \<open>sink\<close> is what the outside world answers to the
  attempts of one action, by attempt number: \<open>None\<close> when the call to the sink returns,
  \<open>Some e\<close> when it raises \<open>e\<close> (unreachable sink, non-success response, timeout, ...).
\<close>

type_synonym sink = "nat \<Rightarrow> py_exception option"

text \<open>
  What running an action does, in order: library calls, sleeps, and the log lines at the
  configured level \<^verbatim>\<open>INFO\<close> and above (\<^verbatim>\<open>logger.debug\<close> lines are not emitted):
  \<^verbatim>\<open>Unknown action type: ...\<close>, \<^verbatim>\<open>gRPC action would be executed: ...\<close>,
  \<^verbatim>\<open>Action executed successfully: ... -> ...\<close> and
  \<^verbatim>\<open>Action failed (attempt ...): ...\<close>.
\<close>

datatype effect =
    Call library_call
  | Sleep nat
  | Log_warning_unknown_type ActionType
  | Log_info_grpc string
  | Log_info_executed ActionType string
  | Log_error_failed nat py_exception

datatype try_result =
    Unknown_type
  | Executed "effect list"
  | Raised py_exception "effect list"

definition answer :: "library_call \<Rightarrow> py_exception option \<Rightarrow> try_result" where
  "answer c r = (case r of None \<Rightarrow> Executed [Call c] | Some e \<Rightarrow> Raised e [Call c])"

definition execute_http_action :: "sink \<Rightarrow> Action \<Rightarrow> EventPayload \<Rightarrow> nat \<Rightarrow> try_result" where
  "execute_http_action w a p attempt =
     answer (HttpPost (target a) (merged_payload a p) (headers a) (timeout a)) (w attempt)"

definition execute_kafka_action :: "sink \<Rightarrow> Action \<Rightarrow> EventPayload \<Rightarrow> nat \<Rightarrow> try_result" where
  "execute_kafka_action w a p attempt =
     answer (KafkaSend (target a) (merged_payload a p) (timeout a)) (w attempt)"

text \<open>
  \<^verbatim>\<open>_execute_redis_action\<close> encodes the message itself, before it publishes: when
  \<^verbatim>\<open>json.dumps\<close> raises, \<^verbatim>\<open>publish\<close> is not reached.
\<close>

definition execute_redis_action :: "sink \<Rightarrow> Action \<Rightarrow> EventPayload \<Rightarrow> nat \<Rightarrow> try_result" where
  "execute_redis_action w a p attempt =
     (let message = merged_payload a p in
      case json_dumps (PDict message) of
        Inl e \<Rightarrow> Raised e [Call (JsonDumps message)]
      | Inr txt \<Rightarrow>
          (case w attempt of
             None \<Rightarrow> Executed [Call (JsonDumps message), Call (RedisPublish (target a) txt)]
           | Some e \<Rightarrow> Raised e [Call (JsonDumps message), Call (RedisPublish (target a) txt)]))"

text \<open>\<^verbatim>\<open>_execute_grpc_action\<close> makes no call: it logs the target.\<close>

definition execute_grpc_action :: "Action \<Rightarrow> EventPayload \<Rightarrow> try_result" where
  "execute_grpc_action a p = Executed [Log_info_grpc (target a)]"

text \<open>The body of the \<^verbatim>\<open>try\<close> of \<^verbatim>\<open>_execute_action\<close>, for one attempt.\<close>

definition try_action :: "sink \<Rightarrow> Action \<Rightarrow> EventPayload \<Rightarrow> nat \<Rightarrow> try_result" where
  "try_action w a p attempt =
     (case action_type a of
        HTTP \<Rightarrow> execute_http_action w a p attempt
      | KAFKA \<Rightarrow> execute_kafka_action w a p attempt
      | REDIS \<Rightarrow> execute_redis_action w a p attempt
      | GRPC \<Rightarrow> execute_grpc_action a p
      | _ \<Rightarrow> Unknown_type)"

text \<open>
  The loop \<^verbatim>\<open>for attempt in range(action.retries + 1)\<close> over the attempts still to make.
  An unknown type logs a warning and returns; an attempt that returns logs the success
  and returns; one that raises logs the failure, then re-raises when
  \<^verbatim>\<open>attempt == action.retries\<close> and otherwise sleeps \<^verbatim>\<open>2 ** attempt\<close>. When the range is
  used up (or empty) the function returns \<^verbatim>\<open>None\<close>.
\<close>

fun attempts_loop ::
  "sink \<Rightarrow> Action \<Rightarrow> EventPayload \<Rightarrow> nat list \<Rightarrow> (py_exception + unit) \<times> effect list" where
  "attempts_loop w a p [] = (Inr (), [])"
| "attempts_loop w a p (attempt # rest) =
     (case try_action w a p attempt of
        Unknown_type \<Rightarrow> (Inr (), [Log_warning_unknown_type (action_type a)])
      | Executed es \<Rightarrow> (Inr (), es @ [Log_info_executed (action_type a) (target a)])
      | Raised e es \<Rightarrow>
          if int attempt = retries a then (Inl e, es @ [Log_error_failed (attempt + 1) e])
          else (let (r, es') = attempts_loop w a p rest
                in (r, es @ [Log_error_failed (attempt + 1) e, Sleep (2 ^ attempt)] @ es')))"

definition execute_action ::
  "sink \<Rightarrow> Action \<Rightarrow> EventPayload \<Rightarrow> (py_exception + unit) \<times> effect list" where
  "execute_action w a p = attempts_loop w a p [0..<nat (retries a + 1)]"

section \<open>Rate limiter\<close>

text \<open>
  The Redis server as far as the rate limiter uses it. Time is the server's clock, in
  milliseconds. A key holds a counter and, once \<^verbatim>\<open>EXPIRE\<close> was called on it, the time at
  which it expires; the server treats a key as gone when the clock is past that time
  (\<open>now > expiry\<close>; at \<open>now = expiry\<close> the key is still there). \<^verbatim>\<open>INCR\<close> keeps the
  expiry of a key, \<^verbatim>\<open>EXPIRE key seconds\<close> sets it to \<open>now + 1000 * seconds\<close>. Every
  command is assumed to reach the server and to be answered, and the commands of
  different fires do not interleave.
\<close>

type_synonym redis = "string \<Rightarrow> (int \<times> int option) option"

definition live :: "redis \<Rightarrow> int \<Rightarrow> string \<Rightarrow> (int \<times> int option) option" where
  "live r now key =
     (case r key of
        None \<Rightarrow> None
      | Some (c, ex) \<Rightarrow>
          (case ex of
             None \<Rightarrow> Some (c, ex)
           | Some t \<Rightarrow> if now > t then None else Some (c, ex)))"

definition redis_get :: "redis \<Rightarrow> int \<Rightarrow> string \<Rightarrow> int option" where
  "redis_get r now key = map_option fst (live r now key)"

definition redis_incr :: "redis \<Rightarrow> int \<Rightarrow> string \<Rightarrow> redis" where
  "redis_incr r now key =
     (case live r now key of
        None \<Rightarrow> r(key \<mapsto> (1, None))
      | Some (c, ex) \<Rightarrow> r(key \<mapsto> (c + 1, ex)))"

definition redis_expire :: "redis \<Rightarrow> int \<Rightarrow> string \<Rightarrow> int \<Rightarrow> redis" where
  "redis_expire r now key seconds =
     (case live r now key of
        None \<Rightarrow> r
      | Some (c, ex) \<Rightarrow> r(key \<mapsto> (c, Some (now + 1000 * seconds))))"

section \<open>Trigger handler\<close>

record TriggerStats =
  executions :: int
  successes :: int
  failures :: int

record TriggerHandler =
  redis_client :: "redis option"
  triggers :: "(string \<times> TriggerConfig) list"
  trigger_stats :: "string \<Rightarrow> TriggerStats option"

text \<open>
  \<^verbatim>\<open>_check_rate_limit\<close> at time \<open>now\<close> (of the Redis clock). \<^verbatim>\<open>not trigger.rate_limit\<close> holds for \<^verbatim>\<open>None\<close> and
  for \<^verbatim>\<open>0\<close>; \<^verbatim>\<open>not self.redis_client\<close> holds until \<^verbatim>\<open>initialize\<close> has run. The field
  \<^verbatim>\<open>cooldown\<close> is not read.
\<close>

definition rate_limit_key :: "TriggerConfig \<Rightarrow> string" where
  "rate_limit_key t = ''rate_limit:'' @ name t"

definition check_rate_limit :: "int \<Rightarrow> TriggerHandler \<Rightarrow> TriggerConfig \<Rightarrow> bool \<times> TriggerHandler" where
  "check_rate_limit now h t =
     (case rate_limit t of
        None \<Rightarrow> (True, h)
      | Some n \<Rightarrow>
          if n = 0 then (True, h)
          else
            (case redis_client h of
               None \<Rightarrow> (True, h)
             | Some r \<Rightarrow>
                 (let key = rate_limit_key t;
                      current = redis_get r now key
                  in if (case current of None \<Rightarrow> False | Some c \<Rightarrow> c \<ge> n) then (False, h)
                     else (True,
                       h\<lparr>redis_client :=
                           Some (redis_expire (redis_incr r now key) now key 60)\<rparr>))))"

definition is_exception :: "py_exception + unit \<Rightarrow> bool" where
  "is_exception r = (case r of Inl e \<Rightarrow> True | Inr u \<Rightarrow> False)"

definition stats_of :: "TriggerHandler \<Rightarrow> string \<Rightarrow> TriggerStats" where
  "stats_of h n =
     (case trigger_stats h n of
        None \<Rightarrow> \<lparr>executions = 0, successes = 0, failures = 0\<rparr>
      | Some s \<Rightarrow> s)"

text \<open>
  \<^verbatim>\<open>_execute_trigger\<close>. Every action of the trigger runs as a task of its own, against its
  own sink (\<open>w i\<close> for the action at position \<open>i\<close>), and \<^verbatim>\<open>gather\<close> with
  \<^verbatim>\<open>return_exceptions=True\<close> collects one result per task. The function returns the new
  handler and, per action, what its task did; how the tasks interleave in time is not
  modelled.
\<close>

definition execute_trigger ::
  "(nat \<Rightarrow> sink) \<Rightarrow> int \<Rightarrow> TriggerHandler \<Rightarrow> TriggerConfig \<Rightarrow> EventPayload
     \<Rightarrow> TriggerHandler \<times> effect list list" where
  "execute_trigger w now h t p =
     (if \<not> enabled t then (h, [])
      else
        (case check_rate_limit now h t of
           (False, h') \<Rightarrow> (h', [])
         | (True, h') \<Rightarrow>
             (let st0 = stats_of h' (name t);
                  st1 = st0\<lparr>executions := executions st0 + 1\<rparr>;
                  results = map (\<lambda>(i, a). execute_action (w i) a p) (enumerate 0 (actions t));
                  succ = int (length (filter (\<lambda>r. \<not> is_exception (fst r)) results));
                  fails = int (length results) - succ;
                  st2 = st1\<lparr>successes := successes st1 + succ,
                            failures := failures st1 + fails\<rparr>
              in (h'\<lparr>trigger_stats := (trigger_stats h')(name t \<mapsto> st2)\<rparr>,
                  map snd results))))"

text \<open>
  \<^verbatim>\<open>process_event\<close>: the first loop evaluates the conditions of every registered trigger
  (an exception there ends the processing of the event), the second executes the matching
  ones in order. \<open>clock n\<close> is the time at which the gate of the trigger named \<open>n\<close> is
  checked, \<open>w n\<close> the sinks of its actions.
\<close>

fun matching_triggers ::
  "(string \<times> TriggerConfig) list \<Rightarrow> EventPayload \<Rightarrow> py_exception + TriggerConfig list" where
  "matching_triggers [] p = Inr []"
| "matching_triggers ((k, t) # rest) p =
     (case evaluate_conditions (conditions t) p of
        Inl e \<Rightarrow> Inl e
      | Inr b \<Rightarrow>
          (case matching_triggers rest p of
             Inl e \<Rightarrow> Inl e
           | Inr ms \<Rightarrow> Inr (if b then t # ms else ms)))"

fun execute_all ::
  "(string \<Rightarrow> nat \<Rightarrow> sink) \<Rightarrow> (string \<Rightarrow> int) \<Rightarrow> TriggerHandler \<Rightarrow> TriggerConfig list
     \<Rightarrow> EventPayload \<Rightarrow> TriggerHandler \<times> (string \<times> effect list list) list" where
  "execute_all w clock h [] p = (h, [])"
| "execute_all w clock h (t # ts) p =
     (let (h1, es) = execute_trigger (w (name t)) (clock (name t)) h t p;
          (h2, rest) = execute_all w clock h1 ts p
      in (h2, (name t, es) # rest))"

definition process_event ::
  "(string \<Rightarrow> nat \<Rightarrow> sink) \<Rightarrow> (string \<Rightarrow> int) \<Rightarrow> TriggerHandler \<Rightarrow> EventPayload
     \<Rightarrow> py_exception + TriggerHandler \<times> (string \<times> effect list list) list" where
  "process_event w clock h p =
     (case matching_triggers (triggers h) p of
        Inl e \<Rightarrow> Inl e
      | Inr ms \<Rightarrow> Inr (execute_all w clock h ms p))"

section \<open>Observations on a run\<close>

text \<open>The call an http or a kafka action makes to its sink at each attempt.\<close>

definition sink_call :: "Action \<Rightarrow> EventPayload \<Rightarrow> library_call" where
  "sink_call a p =
     (if action_type a = HTTP
      then HttpPost (target a) (merged_payload a p) (headers a) (timeout a)
      else KafkaSend (target a) (merged_payload a p) (timeout a))"

text \<open>What \<^verbatim>\<open>gather\<close> collects for the action at position \<open>i\<close> of a trigger.\<close>

definition outcome :: "(nat \<Rightarrow> sink) \<Rightarrow> TriggerConfig \<Rightarrow> EventPayload \<Rightarrow> nat \<Rightarrow> py_exception + unit" where
  "outcome w t p i = fst (execute_action (w i) (actions t ! i) p)"

section \<open>The default trigger \<^verbatim>\<open>critical-alert\<close>\<close>

text \<open>As \<^verbatim>\<open>_setup_default_triggers\<close> registers it, with the defaults of \<^verbatim>\<open>Action\<close>.\<close>

definition pagerduty_action :: Action where
  "pagerduty_action =
     \<lparr>action_type = HTTP, target = ''https://api.pagerduty.com/incidents'',
      payload = [(''urgency'', PStr ''high'')], timeout = 30, retries = 3,
      headers = [(''Authorization'', ''Token ${PAGERDUTY_TOKEN}'')]\<rparr>"

definition alerts_action :: Action where
  "alerts_action =
     \<lparr>action_type = REDIS, target = ''critical-alerts'',
      payload = [(''alert_level'', PStr ''P1'')], timeout = 30, retries = 3,
      headers = []\<rparr>"

definition critical_alert :: TriggerConfig where
  "critical_alert =
     \<lparr>name = ''critical-alert'',
      conditions =
        [\<lparr>field = ''event_type'', operator = EQ, cond_value = PStr ''alert.critical''\<rparr>,
         \<lparr>field = ''data.severity'', operator = GTE, cond_value = PInt 8\<rparr>],
      actions = [pagerduty_action, alerts_action],
      enabled = True,
      trigger_metadata = [],
      rate_limit = Some 10,
      cooldown = Some 300\<rparr>"

text \<open>An event of type \<^verbatim>\<open>alert.critical\<close> with the given \<^verbatim>\<open>data\<close>.\<close>

definition alert_event :: "(string \<times> pyval) list \<Rightarrow> EventPayload" where
  "alert_event d =
     \<lparr>event_id = ''evt-1'', event_type = ''alert.critical'', source = ''generic'',
      timestamp = 0, data = d, metadata = []\<rparr>"

section \<open>Example configurations\<close>

text \<open>
  The handler as \<^verbatim>\<open>__init__\<close> leaves it (no Redis client yet, no statistics) with a given
  registry, and after \<^verbatim>\<open>initialize\<close> has connected it to a Redis server holding no keys.
\<close>

definition constructed :: "(string \<times> TriggerConfig) list \<Rightarrow> TriggerHandler" where
  "constructed trs = \<lparr>redis_client = None, triggers = trs, trigger_stats = Map.empty\<rparr>"

definition initialized :: "(string \<times> TriggerConfig) list \<Rightarrow> TriggerHandler" where
  "initialized trs = \<lparr>redis_client = Some Map.empty, triggers = trs, trigger_stats = Map.empty\<rparr>"

text \<open>A trigger without conditions whose only action has a type the dispatcher does not implement.\<close>

definition email_action :: Action where
  "email_action =
     \<lparr>action_type = EMAIL, target = ''ops@example.com'', payload = [], timeout = 30,
      retries = 3, headers = []\<rparr>"

definition email_trigger :: TriggerConfig where
  "email_trigger =
     \<lparr>name = ''mail-ops'', conditions = [], actions = [email_action], enabled = True,
      trigger_metadata = [], rate_limit = None, cooldown = None\<rparr>"

text \<open>Sinks that accept every attempt.\<close>

definition accepting :: "nat \<Rightarrow> sink" where
  "accepting i = (\<lambda>attempt. None)"

text \<open>
  The registry invariant that \<^verbatim>\<open>add_trigger\<close> and \<^verbatim>\<open>_setup_default_triggers\<close> keep: a
  dict has each key once, and every trigger is stored under its own name.
\<close>

definition registry_ok :: "(string \<times> TriggerConfig) list \<Rightarrow> bool" where
  "registry_ok trs = (distinct (map fst trs) \<and> (\<forall>(k, t) \<in> set trs. name t = k))"

text \<open>The default trigger \<^verbatim>\<open>critical-alert\<close>, switched off.\<close>

definition disabled_alert :: TriggerConfig where
  "disabled_alert = critical_alert\<lparr>enabled := False\<rparr>"


text \<open>An \<^verbatim>\<open>alert.critical\<close> event of severity 9, which matches \<^verbatim>\<open>critical-alert\<close>.\<close>

definition severe :: EventPayload where
  "severe = alert_event [(''severity'', PInt 9)]"

text \<open>
  Successive fires of one trigger: each is a call of \<^verbatim>\<open>_execute_trigger\<close> at its own time,
  with its own event and sinks, on the handler the previous one left. The result is the
  last handler and what each fire dispatched.
\<close>

fun fire_sequence ::
  "TriggerHandler \<Rightarrow> TriggerConfig \<Rightarrow> (int \<times> EventPayload \<times> (nat \<Rightarrow> sink)) list
     \<Rightarrow> TriggerHandler \<times> effect list list list" where
  "fire_sequence h t [] = (h, [])"
| "fire_sequence h t ((now, p, w) # rest) =
     (let (h1, es) = execute_trigger w now h t p;
          (h2, ess) = fire_sequence h1 t rest
      in (h2, es # ess))"

section \<open>Condition evaluation on an absent field\<close>

lemma py_eq_None: "py_eq PNone v = (v = PNone)"
  by (cases v) (simp_all add: py_eq_atom_def)

lemma list_ex_py_eq_None: "list_ex (py_eq PNone) ys = (PNone \<in> set ys)"
  by (induction ys) (auto simp: py_eq_None simp del: py_eq.simps)

text \<open>
  C2. The claim: an ordering operator (\<^verbatim>\<open>gt\<close>, \<^verbatim>\<open>lt\<close>, \<^verbatim>\<open>gte\<close>, \<^verbatim>\<open>lte\<close>) applied to
  operands that cannot be ordered evaluates to false and never raises. The code compares
  with Python's operators unguarded: on an \<^verbatim>\<open>alert.critical\<close> event that carries no
  \<^verbatim>\<open>severity\<close>, the second condition of the default trigger \<^verbatim>\<open>critical-alert\<close>
  (\<^verbatim>\<open>data.severity gte 8\<close>) computes \<^verbatim>\<open>None >= 8\<close>, which raises \<^verbatim>\<open>TypeError\<close>.
\<close>

theorem ordering_on_absent_field_raises:
  "evaluate_condition \<lparr>field = ''data.severity'', operator = GTE, cond_value = PInt 8\<rparr>
     (alert_event []) = Inl TypeError"
  by (simp add: evaluate_condition_def extract_value_def alert_event_def py_compare_atom_def)

text \<open>
  C4, as stated, fails: with an absent field, \<^verbatim>\<open>not_in\<close> against a list of concrete
  values is \<^verbatim>\<open>None not in [...]\<close>, which is true.
\<close>

theorem not_in_absent_field_counterexample:
  "extract_value ''data.environment'' (alert_event []) = PNone \<and>
   evaluate_condition
     \<lparr>field = ''data.environment'', operator = NOT_IN,
      cond_value = PList [PStr ''staging'', PStr ''production'']\<rparr>
     (alert_event []) = Inr True"
  by (simp add: evaluate_condition_def extract_value_def alert_event_def py_in_def
      py_eq_atom_def)

text \<open>
  C4, amended. When the field path does not resolve (extraction yields \<^verbatim>\<open>None\<close>):
  \<^verbatim>\<open>contains\<close> and \<^verbatim>\<open>regex\<close> evaluate to false; \<^verbatim>\<open>eq\<close> is true exactly when the literal
  is itself \<^verbatim>\<open>None\<close>, and \<^verbatim>\<open>ne\<close> exactly when it is not; against a list literal, \<^verbatim>\<open>in\<close>
  is true exactly when \<^verbatim>\<open>None\<close> is an item of the list and \<^verbatim>\<open>not_in\<close> exactly when it
  is not. (Nothing is said here of the four ordering operators.)
\<close>

theorem absent_field_evaluation:
  assumes "extract_value (field c) p = PNone"
  shows "(operator c = CONTAINS \<or> operator c = REGEX \<longrightarrow> evaluate_condition c p = Inr False) \<and>
         (operator c = EQ \<longrightarrow> evaluate_condition c p = Inr (cond_value c = PNone)) \<and>
         (operator c = NE \<longrightarrow> evaluate_condition c p = Inr (cond_value c \<noteq> PNone)) \<and>
         (\<forall>ys. operator c = IN \<and> cond_value c = PList ys \<longrightarrow>
            evaluate_condition c p = Inr (PNone \<in> set ys)) \<and>
         (\<forall>ys. operator c = NOT_IN \<and> cond_value c = PList ys \<longrightarrow>
            evaluate_condition c p = Inr (PNone \<notin> set ys))"
  using assms
  by (simp add: evaluate_condition_def py_eq_None py_in_def list_ex_py_eq_None
      del: py_eq.simps)

theorem absent_field_evaluation_witness:
  "extract_value ''data.email'' (alert_event []) = PNone \<and>
   evaluate_condition \<lparr>field = ''data.email'', operator = CONTAINS, cond_value = PStr ''@''\<rparr>
     (alert_event []) = Inr False \<and>
   evaluate_condition \<lparr>field = ''data.email'', operator = EQ, cond_value = PStr ''a@b.com''\<rparr>
     (alert_event []) = Inr False \<and>
   evaluate_condition \<lparr>field = ''data.email'', operator = NE, cond_value = PStr ''a@b.com''\<rparr>
     (alert_event []) = Inr True \<and>
   evaluate_condition \<lparr>field = ''data.email'', operator = NE, cond_value = PNone\<rparr>
     (alert_event []) = Inr False \<and>
   evaluate_condition \<lparr>field = ''data.email'', operator = IN, cond_value = PList [PStr ''a@b.com'']\<rparr>
     (alert_event []) = Inr False \<and>
   evaluate_condition \<lparr>field = ''data.email'', operator = NOT_IN, cond_value = PList [PNone]\<rparr>
     (alert_event []) = Inr False"
proof -
  have absent: "extract_value ''data.email'' (alert_event []) = PNone"
    by (simp add: extract_value_def alert_event_def)
  show ?thesis
    using absent
      absent_field_evaluation
        [of "\<lparr>field = ''data.email'', operator = CONTAINS, cond_value = PStr ''@''\<rparr>"
            "alert_event []"]
      absent_field_evaluation
        [of "\<lparr>field = ''data.email'', operator = EQ, cond_value = PStr ''a@b.com''\<rparr>"
            "alert_event []"]
      absent_field_evaluation
        [of "\<lparr>field = ''data.email'', operator = NE, cond_value = PStr ''a@b.com''\<rparr>"
            "alert_event []"]
      absent_field_evaluation
        [of "\<lparr>field = ''data.email'', operator = NE, cond_value = PNone\<rparr>"
            "alert_event []"]
      absent_field_evaluation
        [of "\<lparr>field = ''data.email'', operator = IN, cond_value = PList [PStr ''a@b.com'']\<rparr>"
            "alert_event []"]
      absent_field_evaluation
        [of "\<lparr>field = ''data.email'', operator = NOT_IN, cond_value = PList [PNone]\<rparr>"
            "alert_event []"]
    by simp
qed

section \<open>Retries\<close>

lemma merged_payload_not_serializable_aux:
  "json_serializable_dict (AList.update k v al) \<Longrightarrow> json_serializable v"
  by (induction al) (auto split: if_splits)

lemma merged_payload_not_serializable:
  "json_dumps (PDict (merged_payload a p)) = Inl TypeError"
proof -
  have "\<not> json_serializable (event_dict p)" by (simp add: event_dict_def)
  then have "\<not> json_serializable_dict (merged_payload a p)"
    unfolding merged_payload_def using merged_payload_not_serializable_aux by blast
  then show ?thesis by (simp add: json_dumps_def)
qed

lemma try_action_redis:
  "action_type a = REDIS \<Longrightarrow>
   try_action w a p i = Raised TypeError [Call (JsonDumps (merged_payload a p))]"
  by (simp add: try_action_def execute_redis_action_def merged_payload_not_serializable)

lemma try_action_sink_fails:
  "action_type a \<in> {HTTP, KAFKA} \<Longrightarrow> w i = Some e \<Longrightarrow>
   try_action w a p i = Raised e [Call (sink_call a p)]"
  by (auto simp: try_action_def execute_http_action_def execute_kafka_action_def answer_def
      sink_call_def)

lemma try_action_sink_accepts:
  "action_type a \<in> {HTTP, KAFKA} \<Longrightarrow> w i = None \<Longrightarrow>
   try_action w a p i = Executed [Call (sink_call a p)]"
  by (auto simp: try_action_def execute_http_action_def execute_kafka_action_def answer_def
      sink_call_def)

text \<open>The loop from attempt \<open>k\<close> on, when every attempt up to the last one raises.\<close>

lemma loop_all_fail:
  "retries a = int n \<Longrightarrow> k \<le> n \<Longrightarrow>
   (\<forall>i. k \<le> i \<and> i \<le> n \<longrightarrow> try_action w a p i = Raised (exc i) es) \<Longrightarrow>
   attempts_loop w a p [k..<Suc n] =
     (Inl (exc n),
      concat (map (\<lambda>i. es @ [Log_error_failed (Suc i) (exc i), Sleep (2 ^ i)]) [k..<n]) @
      es @ [Log_error_failed (Suc n) (exc n)])"
proof (induction "n - k" arbitrary: k)
  case 0
  then have kn: "k = n" by simp
  with 0 have "try_action w a p n = Raised (exc n) es" by simp
  with 0 kn show ?case by simp
next
  case (Suc d)
  then have lt: "k < n" by simp
  with Suc.prems have tr: "try_action w a p k = Raised (exc k) es" by simp
  have up: "[k..<Suc n] = k # [Suc k..<Suc n]" using lt by (simp add: upt_conv_Cons)
  have up2: "[k..<n] = k # [Suc k..<n]" using lt by (simp add: upt_conv_Cons)
  have IH: "attempts_loop w a p [Suc k..<Suc n] =
     (Inl (exc n),
      concat (map (\<lambda>i. es @ [Log_error_failed (Suc i) (exc i), Sleep (2 ^ i)]) [Suc k..<n]) @
      es @ [Log_error_failed (Suc n) (exc n)])"
    using Suc.hyps(1)[of "Suc k"] Suc.hyps(2) Suc.prems lt by simp
  have ne: "int k \<noteq> retries a" using lt Suc.prems(1) by simp
  show ?case
    unfolding up up2 using tr ne by (simp add: IH del: upt_Suc)
qed

text \<open>The loop from attempt \<open>k\<close> on, when attempt \<open>j\<close> is the first that returns.\<close>

lemma loop_first_success:
  "retries a = int n \<Longrightarrow> k \<le> j \<Longrightarrow> j \<le> n \<Longrightarrow>
   (\<forall>i. k \<le> i \<and> i < j \<longrightarrow> try_action w a p i = Raised (exc i) es) \<Longrightarrow>
   try_action w a p j = Executed es' \<Longrightarrow>
   attempts_loop w a p [k..<Suc n] =
     (Inr (),
      concat (map (\<lambda>i. es @ [Log_error_failed (Suc i) (exc i), Sleep (2 ^ i)]) [k..<j]) @
      es' @ [Log_info_executed (action_type a) (target a)])"
proof (induction "j - k" arbitrary: k)
  case 0
  then have kj: "k = j" by simp
  have "[j..<Suc n] = j # [Suc j..<Suc n]" using 0 by (simp add: upt_conv_Cons)
  then show ?case using kj 0 by (simp del: upt_Suc)
next
  case (Suc d)
  then have lt: "k < j" by simp
  with Suc.prems have tr: "try_action w a p k = Raised (exc k) es" by simp
  have up: "[k..<Suc n] = k # [Suc k..<Suc n]" using lt Suc.prems by (simp add: upt_conv_Cons)
  have up2: "[k..<j] = k # [Suc k..<j]" using lt by (simp add: upt_conv_Cons)
  have IH: "attempts_loop w a p [Suc k..<Suc n] =
     (Inr (),
      concat (map (\<lambda>i. es @ [Log_error_failed (Suc i) (exc i), Sleep (2 ^ i)]) [Suc k..<j]) @
      es' @ [Log_info_executed (action_type a) (target a)])"
    using Suc.hyps(1)[of "Suc k"] Suc.hyps(2) Suc.prems lt by simp
  have ne: "int k \<noteq> retries a" using lt Suc.prems by simp
  show ?case
    unfolding up up2 using tr ne by (simp add: IH del: upt_Suc)
qed

text \<open>
  C5. Let an action have \<^verbatim>\<open>retries\<close> \<open>= N \<ge> 0\<close>. If it is an http or kafka action and
  its sink fails every attempt \<open>0, ..., N\<close>, the run is exactly: call the sink, log the
  failure, sleep \<open>2 ^ i\<close> (for \<open>i = 0, ..., N - 1\<close>, so 1, 2, 4, ...), then a last call
  and a last logged failure, and the exception of that last attempt is raised to the
  caller: \<open>N + 1\<close> attempts in all. A redis action runs in the same way whatever its sink
  does, since every attempt fails in \<^verbatim>\<open>json.dumps\<close>. If instead attempt \<open>j \<le> N\<close> of an
  http or kafka action is the first the sink accepts, the run ends with that call and the
  success log line, and returns normally: nothing follows the successful attempt.
\<close>

theorem retry_policy:
  assumes "0 \<le> retries a"
  shows
    "(action_type a \<in> {HTTP, KAFKA} \<and> (\<forall>i \<le> nat (retries a). w i \<noteq> None) \<longrightarrow>
        execute_action w a p =
          (Inl (the (w (nat (retries a)))),
           concat (map (\<lambda>i. [Call (sink_call a p), Log_error_failed (Suc i) (the (w i)),
                              Sleep (2 ^ i)]) [0..<nat (retries a)]) @
           [Call (sink_call a p),
            Log_error_failed (Suc (nat (retries a))) (the (w (nat (retries a))))])) \<and>
     (action_type a = REDIS \<longrightarrow>
        execute_action w a p =
          (Inl TypeError,
           concat (map (\<lambda>i. [Call (JsonDumps (merged_payload a p)),
                              Log_error_failed (Suc i) TypeError, Sleep (2 ^ i)])
                     [0..<nat (retries a)]) @
           [Call (JsonDumps (merged_payload a p)),
            Log_error_failed (Suc (nat (retries a))) TypeError])) \<and>
     (\<forall>j \<le> nat (retries a).
        action_type a \<in> {HTTP, KAFKA} \<and> (\<forall>i < j. w i \<noteq> None) \<and> w j = None \<longrightarrow>
        execute_action w a p =
          (Inr (),
           concat (map (\<lambda>i. [Call (sink_call a p), Log_error_failed (Suc i) (the (w i)),
                              Sleep (2 ^ i)]) [0..<j]) @
           [Call (sink_call a p), Log_info_executed (action_type a) (target a)]))"
proof -
  define n where "n = nat (retries a)"
  have r: "retries a = int n" using assms by (simp add: n_def)
  have ex: "execute_action w a p = attempts_loop w a p [0..<Suc n]"
    using assms by (simp add: execute_action_def n_def nat_add_distrib del: upt_Suc)
  have A: "action_type a \<in> {HTTP, KAFKA} \<and> (\<forall>i \<le> n. w i \<noteq> None) \<longrightarrow>
        execute_action w a p =
          (Inl (the (w n)),
           concat (map (\<lambda>i. [Call (sink_call a p), Log_error_failed (Suc i) (the (w i)),
                              Sleep (2 ^ i)]) [0..<n]) @
           [Call (sink_call a p), Log_error_failed (Suc n) (the (w n))])"
  proof
    assume h: "action_type a \<in> {HTTP, KAFKA} \<and> (\<forall>i \<le> n. w i \<noteq> None)"
    then have "\<forall>i. 0 \<le> i \<and> i \<le> n \<longrightarrow>
        try_action w a p i = Raised (the (w i)) [Call (sink_call a p)]"
      using try_action_sink_fails[of a w _ _ p] by auto
    from loop_all_fail[OF r _ this] show "execute_action w a p =
          (Inl (the (w n)),
           concat (map (\<lambda>i. [Call (sink_call a p), Log_error_failed (Suc i) (the (w i)),
                              Sleep (2 ^ i)]) [0..<n]) @
           [Call (sink_call a p), Log_error_failed (Suc n) (the (w n))])"
      unfolding ex by simp
  qed
  have B: "action_type a = REDIS \<longrightarrow>
        execute_action w a p =
          (Inl TypeError,
           concat (map (\<lambda>i. [Call (JsonDumps (merged_payload a p)),
                              Log_error_failed (Suc i) TypeError, Sleep (2 ^ i)]) [0..<n]) @
           [Call (JsonDumps (merged_payload a p)), Log_error_failed (Suc n) TypeError])"
  proof
    assume h: "action_type a = REDIS"
    then have "\<forall>i. 0 \<le> i \<and> i \<le> n \<longrightarrow>
        try_action w a p i = Raised ((\<lambda>i. TypeError) i) [Call (JsonDumps (merged_payload a p))]"
      using try_action_redis by simp
    from loop_all_fail[OF r _ this] show "execute_action w a p =
          (Inl TypeError,
           concat (map (\<lambda>i. [Call (JsonDumps (merged_payload a p)),
                              Log_error_failed (Suc i) TypeError, Sleep (2 ^ i)]) [0..<n]) @
           [Call (JsonDumps (merged_payload a p)), Log_error_failed (Suc n) TypeError])"
      unfolding ex by simp
  qed
  have C: "\<forall>j \<le> n.
        action_type a \<in> {HTTP, KAFKA} \<and> (\<forall>i < j. w i \<noteq> None) \<and> w j = None \<longrightarrow>
        execute_action w a p =
          (Inr (),
           concat (map (\<lambda>i. [Call (sink_call a p), Log_error_failed (Suc i) (the (w i)),
                              Sleep (2 ^ i)]) [0..<j]) @
           [Call (sink_call a p), Log_info_executed (action_type a) (target a)])"
  proof (intro allI impI)
    fix j
    assume j: "j \<le> n"
      and h: "action_type a \<in> {HTTP, KAFKA} \<and> (\<forall>i < j. w i \<noteq> None) \<and> w j = None"
    then have f: "\<forall>i. 0 \<le> i \<and> i < j \<longrightarrow>
        try_action w a p i = Raised (the (w i)) [Call (sink_call a p)]"
      using try_action_sink_fails[of a w _ _ p] by auto
    have s: "try_action w a p j = Executed [Call (sink_call a p)]"
      using h try_action_sink_accepts[of a w j p] by simp
    from loop_first_success[OF r _ j f s] show "execute_action w a p =
          (Inr (),
           concat (map (\<lambda>i. [Call (sink_call a p), Log_error_failed (Suc i) (the (w i)),
                              Sleep (2 ^ i)]) [0..<j]) @
           [Call (sink_call a p), Log_info_executed (action_type a) (target a)])"
      unfolding ex by simp
  qed
  show ?thesis using A B C unfolding n_def by blast
qed

theorem retry_policy_witness:
  "0 \<le> retries pagerduty_action \<and>
   execute_action (\<lambda>i. Some (TransportError 503)) pagerduty_action severe =
     (Inl (TransportError 503),
      [Call (sink_call pagerduty_action severe), Log_error_failed 1 (TransportError 503), Sleep 1,
       Call (sink_call pagerduty_action severe), Log_error_failed 2 (TransportError 503), Sleep 2,
       Call (sink_call pagerduty_action severe), Log_error_failed 3 (TransportError 503), Sleep 4,
       Call (sink_call pagerduty_action severe), Log_error_failed 4 (TransportError 503)]) \<and>
   execute_action (\<lambda>i. if i < 2 then Some (TransportError 503) else None) pagerduty_action severe =
     (Inr (),
      [Call (sink_call pagerduty_action severe), Log_error_failed 1 (TransportError 503), Sleep 1,
       Call (sink_call pagerduty_action severe), Log_error_failed 2 (TransportError 503), Sleep 2,
       Call (sink_call pagerduty_action severe),
       Log_info_executed HTTP ''https://api.pagerduty.com/incidents'']) \<and>
   execute_action (\<lambda>i. None) alerts_action severe =
     (Inl TypeError,
      [Call (JsonDumps (merged_payload alerts_action severe)), Log_error_failed 1 TypeError, Sleep 1,
       Call (JsonDumps (merged_payload alerts_action severe)), Log_error_failed 2 TypeError, Sleep 2,
       Call (JsonDumps (merged_payload alerts_action severe)), Log_error_failed 3 TypeError, Sleep 4,
       Call (JsonDumps (merged_payload alerts_action severe)), Log_error_failed 4 TypeError]) \<and>
   sink_call pagerduty_action severe =
     HttpPost ''https://api.pagerduty.com/incidents''
       [(''urgency'', PStr ''high''), (''event'', event_dict severe)]
       [(''Authorization'', ''Token ${PAGERDUTY_TOKEN}'')] 30"
proof -
  have r: "retries pagerduty_action = 3" "action_type pagerduty_action = HTTP"
    "target pagerduty_action = ''https://api.pagerduty.com/incidents''"
    by (simp_all add: pagerduty_action_def)
  have q: "retries alerts_action = 3" "action_type alerts_action = REDIS"
    by (simp_all add: alerts_action_def)
  have up3: "[0..<3] = [0, 1, 2]" by (simp add: upt_rec)
  have up2: "[0..<2] = [0, 1]" by (simp add: upt_rec)
  have p0: "(0::int) \<le> retries pagerduty_action" using r by simp
  have q0: "(0::int) \<le> retries alerts_action" using q by simp
  have A: "execute_action (\<lambda>i. Some (TransportError 503)) pagerduty_action severe =
     (Inl (TransportError 503),
      [Call (sink_call pagerduty_action severe), Log_error_failed 1 (TransportError 503), Sleep 1,
       Call (sink_call pagerduty_action severe), Log_error_failed 2 (TransportError 503), Sleep 2,
       Call (sink_call pagerduty_action severe), Log_error_failed 3 (TransportError 503), Sleep 4,
       Call (sink_call pagerduty_action severe), Log_error_failed 4 (TransportError 503)])"
    using retry_policy[OF p0, of "\<lambda>i. Some (TransportError 503)" severe, THEN conjunct1]
    by (simp add: r up3)
  have B0: "2 \<le> nat (retries pagerduty_action)" using r by simp
  have B: "execute_action (\<lambda>i. if i < 2 then Some (TransportError 503) else None)
       pagerduty_action severe =
     (Inr (),
      [Call (sink_call pagerduty_action severe), Log_error_failed 1 (TransportError 503), Sleep 1,
       Call (sink_call pagerduty_action severe), Log_error_failed 2 (TransportError 503), Sleep 2,
       Call (sink_call pagerduty_action severe),
       Log_info_executed HTTP ''https://api.pagerduty.com/incidents''])"
    using retry_policy[OF p0, of "\<lambda>i. if i < 2 then Some (TransportError 503) else None" severe,
        THEN conjunct2, THEN conjunct2, rule_format, OF B0]
    by (simp add: r up2)
  have C: "execute_action (\<lambda>i. None) alerts_action severe =
     (Inl TypeError,
      [Call (JsonDumps (merged_payload alerts_action severe)), Log_error_failed 1 TypeError, Sleep 1,
       Call (JsonDumps (merged_payload alerts_action severe)), Log_error_failed 2 TypeError, Sleep 2,
       Call (JsonDumps (merged_payload alerts_action severe)), Log_error_failed 3 TypeError, Sleep 4,
       Call (JsonDumps (merged_payload alerts_action severe)), Log_error_failed 4 TypeError])"
    using retry_policy[OF q0, of "\<lambda>i. None" severe, THEN conjunct2, THEN conjunct1]
    by (simp add: q up3)
  have D: "sink_call pagerduty_action severe =
     HttpPost ''https://api.pagerduty.com/incidents''
       [(''urgency'', PStr ''high''), (''event'', event_dict severe)]
       [(''Authorization'', ''Token ${PAGERDUTY_TOKEN}'')] 30"
    by (simp add: sink_call_def pagerduty_action_def merged_payload_def)
  show ?thesis using A B C D p0 by simp
qed

section \<open>Unknown action types\<close>

lemma execute_action_unknown:
  "action_type a \<notin> {HTTP, KAFKA, REDIS, GRPC} \<Longrightarrow> fst (execute_action w a p) = Inr ()"
  unfolding execute_action_def
  by (cases "[0..<nat (retries a + 1)]")
     (auto simp: try_action_def split: ActionType.splits)

section \<open>Outbound message\<close>

lemma try_action_message:
  assumes "try_action w a p i = Executed es \<or> try_action w a p i = Raised e es"
    and "Call c \<in> set es" and "message_of c = Some m"
  shows "m = merged_payload a p"
  using assms
  by (auto simp: try_action_def execute_http_action_def execute_kafka_action_def
      execute_redis_action_def execute_grpc_action_def answer_def Let_def
      split: ActionType.splits option.splits sum.splits)

lemma attempts_loop_message:
  "Call c \<in> set (snd (attempts_loop w a p xs)) \<Longrightarrow> message_of c = Some m \<Longrightarrow>
   m = merged_payload a p"
proof (induction xs)
  case Nil
  then show ?case by simp
next
  case (Cons i xs)
  show ?thesis
  proof (cases "try_action w a p i")
    case Unknown_type
    with Cons.prems show ?thesis by simp
  next
    case (Executed es)
    with Cons.prems show ?thesis using try_action_message[of w a p i es] by auto
  next
    case (Raised e es)
    with Cons.prems Cons.IH show ?thesis using try_action_message[of w a p i es e]
      by (auto simp: split_beta split: if_splits)
  qed
qed

lemma attempts_loop_redis_publish:
  "action_type a = REDIS \<Longrightarrow> Call (RedisPublish tgt txt) \<notin> set (snd (attempts_loop w a p xs))"
  by (induction xs) (auto simp: try_action_redis split_beta)

lemma map_of_merged_payload:
  "map_of (merged_payload a p) = (map_of (payload a))(''event'' \<mapsto> event_dict p)"
  by (simp add: merged_payload_def update_conv')

text \<open>
  C9. Every message dict the dispatcher hands on (to \<^verbatim>\<open>session.post\<close>, to
  \<^verbatim>\<open>kafka_producer.send\<close>, to \<^verbatim>\<open>json.dumps\<close> for a redis action) is the payload of the
  action with the key \<^verbatim>\<open>"event"\<close> bound to the event as a dict of its six fields: a
  binding of \<^verbatim>\<open>"event"\<close> in the payload is overridden, every other key keeps its value.
  Every http, kafka and redis action that makes an attempt hands on such a message. For a
  redis action it goes no further: \<^verbatim>\<open>json.dumps\<close> raises on it and nothing is published.
\<close>

theorem outbound_message:
  "(\<forall>c m. Call c \<in> set (snd (execute_action w a p)) \<and> message_of c = Some m \<longrightarrow>
      m = AList.update ''event''
            (PDict [(''event_id'', PStr (event_id p)),
                    (''event_type'', PStr (event_type p)),
                    (''source'', PStr (source p)),
                    (''timestamp'', PDatetime (timestamp p)),
                    (''data'', PDict (data p)),
                    (''metadata'', PDict (map (\<lambda>(k, v). (k, PStr v)) (metadata p)))])
            (payload a) \<and>
      map_of m ''event'' =
        Some (PDict [(''event_id'', PStr (event_id p)),
                     (''event_type'', PStr (event_type p)),
                     (''source'', PStr (source p)),
                     (''timestamp'', PDatetime (timestamp p)),
                     (''data'', PDict (data p)),
                     (''metadata'', PDict (map (\<lambda>(k, v). (k, PStr v)) (metadata p)))]) \<and>
      (\<forall>k. k \<noteq> ''event'' \<longrightarrow> map_of m k = map_of (payload a) k)) \<and>
   (action_type a \<in> {HTTP, KAFKA, REDIS} \<and> 0 \<le> retries a \<longrightarrow>
      (\<exists>c. Call c \<in> set (snd (execute_action w a p)) \<and>
         message_of c = Some (merged_payload a p))) \<and>
   (action_type a = REDIS \<longrightarrow>
      (\<forall>tgt txt. Call (RedisPublish tgt txt) \<notin> set (snd (execute_action w a p))))"
proof -
  let ?ev = "PDict [(''event_id'', PStr (event_id p)),
                    (''event_type'', PStr (event_type p)),
                    (''source'', PStr (source p)),
                    (''timestamp'', PDatetime (timestamp p)),
                    (''data'', PDict (data p)),
                    (''metadata'', PDict (map (\<lambda>(k, v). (k, PStr v)) (metadata p)))]"
  have ev: "event_dict p = ?ev" by (simp add: event_dict_def)
  have A: "\<forall>c m. Call c \<in> set (snd (execute_action w a p)) \<and> message_of c = Some m \<longrightarrow>
      m = AList.update ''event'' ?ev (payload a) \<and>
      map_of m ''event'' = Some ?ev \<and>
      (\<forall>k. k \<noteq> ''event'' \<longrightarrow> map_of m k = map_of (payload a) k)"
  proof (intro allI impI)
    fix c m
    assume h: "Call c \<in> set (snd (execute_action w a p)) \<and> message_of c = Some m"
    then have m: "m = merged_payload a p"
      unfolding execute_action_def using attempts_loop_message by blast
    show "m = AList.update ''event'' ?ev (payload a) \<and>
      map_of m ''event'' = Some ?ev \<and>
      (\<forall>k. k \<noteq> ''event'' \<longrightarrow> map_of m k = map_of (payload a) k)"
      unfolding m map_of_merged_payload using ev by (simp add: merged_payload_def)
  qed
  have B: "action_type a \<in> {HTTP, KAFKA, REDIS} \<and> 0 \<le> retries a \<longrightarrow>
      (\<exists>c. Call c \<in> set (snd (execute_action w a p)) \<and>
         message_of c = Some (merged_payload a p))"
  proof
    assume h: "action_type a \<in> {HTTP, KAFKA, REDIS} \<and> 0 \<le> retries a"
    then have up: "[0..<nat (retries a + 1)] = 0 # [1..<nat (retries a + 1)]"
      by (simp add: upt_conv_Cons)
    from h show "\<exists>c. Call c \<in> set (snd (execute_action w a p)) \<and>
         message_of c = Some (merged_payload a p)"
      unfolding execute_action_def up
      by (cases "w 0")
         (auto simp: try_action_def execute_http_action_def execute_kafka_action_def
          execute_redis_action_def answer_def split_beta merged_payload_not_serializable)
  qed
  have C: "action_type a = REDIS \<longrightarrow>
      (\<forall>tgt txt. Call (RedisPublish tgt txt) \<notin> set (snd (execute_action w a p)))"
    unfolding execute_action_def using attempts_loop_redis_publish by blast
  show ?thesis using A B C by blast
qed

theorem outbound_message_witness:
  "Call (HttpPost ''https://api.example.com/welcome''
      [(''event'',
        PDict [(''event_id'', PStr ''evt-1''), (''event_type'', PStr ''alert.critical''),
               (''source'', PStr ''generic''), (''timestamp'', PDatetime 0),
               (''data'', PDict [(''severity'', PInt 9)]), (''metadata'', PDict [])]),
       (''template'', PStr ''welcome'')] [] 30)
     \<in> set (snd (execute_action (\<lambda>i. None)
          \<lparr>action_type = HTTP, target = ''https://api.example.com/welcome'',
           payload = [(''event'', PStr ''stale''), (''template'', PStr ''welcome'')],
           timeout = 30, retries = 3, headers = []\<rparr> severe)) \<and>
   [(''event'',
     PDict [(''event_id'', PStr ''evt-1''), (''event_type'', PStr ''alert.critical''),
            (''source'', PStr ''generic''), (''timestamp'', PDatetime 0),
            (''data'', PDict [(''severity'', PInt 9)]), (''metadata'', PDict [])]),
    (''template'', PStr ''welcome'')] =
   AList.update ''event''
     (PDict [(''event_id'', PStr (event_id severe)), (''event_type'', PStr (event_type severe)),
             (''source'', PStr (source severe)), (''timestamp'', PDatetime (timestamp severe)),
             (''data'', PDict (data severe)),
             (''metadata'', PDict (map (\<lambda>(k, v). (k, PStr v)) (metadata severe)))])
     [(''event'', PStr ''stale''), (''template'', PStr ''welcome'')]"
proof -
  let ?a = "\<lparr>action_type = HTTP, target = ''https://api.example.com/welcome'',
           payload = [(''event'', PStr ''stale''), (''template'', PStr ''welcome'')],
           timeout = 30, retries = 3, headers = []\<rparr>"
  let ?m = "[(''event'',
     PDict [(''event_id'', PStr ''evt-1''), (''event_type'', PStr ''alert.critical''),
            (''source'', PStr ''generic''), (''timestamp'', PDatetime 0),
            (''data'', PDict [(''severity'', PInt 9)]), (''metadata'', PDict [])]),
    (''template'', PStr ''welcome'')]"
  let ?c = "HttpPost ''https://api.example.com/welcome'' ?m [] 30"
  have up: "[0..<4] = [0, 1, 2, 3]" by (simp add: upt_rec)
  have mem: "Call ?c \<in> set (snd (execute_action (\<lambda>i. None) ?a severe))"
    by (simp add: execute_action_def up try_action_def execute_http_action_def answer_def
        merged_payload_def event_dict_def severe_def alert_event_def)
  have msg: "message_of ?c = Some ?m" by simp
  from outbound_message[THEN conjunct1, rule_format, OF conjI, OF mem msg] mem
  show ?thesis by simp
qed

section \<open>Trigger execution\<close>

lemma check_rate_limit_stats:
  "trigger_stats (snd (check_rate_limit now h t)) = trigger_stats h"
  by (simp add: check_rate_limit_def Let_def split: option.splits)

lemma check_rate_limit_triggers:
  "triggers (snd (check_rate_limit now h t)) = triggers h"
  by (simp add: check_rate_limit_def Let_def split: option.splits)

lemma check_rate_limit_rejected:
  "check_rate_limit now h t = (False, h') \<Longrightarrow> h' = h"
  by (auto simp: check_rate_limit_def Let_def split: option.splits if_splits)

lemma map_enumerate:
  "map (\<lambda>(i, a). f i a) (enumerate 0 xs) = map (\<lambda>i. f i (xs ! i)) [0..<length xs]"
  by (rule nth_equalityI) (simp_all add: nth_enumerate_eq)

lemma stats_update_all:
  "(s::TriggerStats)\<lparr>executions := e, successes := u, failures := f\<rparr> =
   \<lparr>executions = e, successes = u, failures = f\<rparr>"
  by (cases s) simp

lemma execute_trigger_accepted:
  assumes "enabled t" and "check_rate_limit now h t = (True, h')"
  shows "execute_trigger w now h t p =
    (h'\<lparr>trigger_stats := (trigger_stats h)(name t \<mapsto>
        \<lparr>executions = executions (stats_of h (name t)) + 1,
         successes = successes (stats_of h (name t)) +
           int (length (filter (\<lambda>i. \<not> is_exception (outcome w t p i)) [0..<length (actions t)])),
         failures = failures (stats_of h (name t)) +
           int (length (filter (\<lambda>i. is_exception (outcome w t p i)) [0..<length (actions t)]))\<rparr>)\<rparr>,
     map (\<lambda>i. snd (execute_action (w i) (actions t ! i) p)) [0..<length (actions t)])"
proof -
  have st: "trigger_stats h' = trigger_stats h"
    using check_rate_limit_stats[of now h t] assms(2) by simp
  then have so: "stats_of h' (name t) = stats_of h (name t)" by (simp add: stats_of_def)
  have len: "int (length (actions t)) -
      int (length (filter (\<lambda>i. \<not> is_exception (outcome w t p i)) [0..<length (actions t)])) =
      int (length (filter (\<lambda>i. is_exception (outcome w t p i)) [0..<length (actions t)]))"
    using sum_length_filter_compl[of "\<lambda>i. is_exception (outcome w t p i)" "[0..<length (actions t)]"]
    by simp
  show ?thesis
    using assms len
    by (simp add: execute_trigger_def Let_def map_enumerate filter_map o_def st so outcome_def
        stats_update_all)
qed

text \<open>
  C7. When an enabled trigger with \<open>k\<close> actions passes the gate, each of the \<open>k\<close>
  actions is run, the action at position \<open>i\<close> doing exactly what it does on its own
  whatever its siblings do; \<^verbatim>\<open>executions\<close> grows by one, \<^verbatim>\<open>successes\<close> by the number of
  actions that returned and \<^verbatim>\<open>failures\<close> by the number that raised, which add up to \<open>k\<close>.
\<close>

theorem trigger_fan_out:
  assumes "enabled t" and "fst (check_rate_limit now h t)"
  shows "length (snd (execute_trigger w now h t p)) = length (actions t) \<and>
    (\<forall>i < length (actions t).
       snd (execute_trigger w now h t p) ! i = snd (execute_action (w i) (actions t ! i) p)) \<and>
    executions (stats_of (fst (execute_trigger w now h t p)) (name t)) =
      executions (stats_of h (name t)) + 1 \<and>
    successes (stats_of (fst (execute_trigger w now h t p)) (name t)) =
      successes (stats_of h (name t)) +
      int (length (filter (\<lambda>i. \<not> is_exception (outcome w t p i)) [0..<length (actions t)])) \<and>
    failures (stats_of (fst (execute_trigger w now h t p)) (name t)) =
      failures (stats_of h (name t)) +
      int (length (filter (\<lambda>i. is_exception (outcome w t p i)) [0..<length (actions t)])) \<and>
    (successes (stats_of (fst (execute_trigger w now h t p)) (name t)) -
       successes (stats_of h (name t))) +
    (failures (stats_of (fst (execute_trigger w now h t p)) (name t)) -
       failures (stats_of h (name t))) = int (length (actions t))"
proof -
  obtain h' where c: "check_rate_limit now h t = (True, h')"
    using assms(2) by (cases "check_rate_limit now h t") auto
  have len: "int (length (filter (\<lambda>i. \<not> is_exception (outcome w t p i)) [0..<length (actions t)])) +
      int (length (filter (\<lambda>i. is_exception (outcome w t p i)) [0..<length (actions t)])) =
      int (length (actions t))"
    using sum_length_filter_compl[of "\<lambda>i. is_exception (outcome w t p i)" "[0..<length (actions t)]"]
    by simp
  show ?thesis
    using len by (simp add: execute_trigger_accepted[OF assms(1) c] stats_of_def)
qed

text \<open>
  C10. While the handler has no Redis client, \<^verbatim>\<open>_check_rate_limit\<close> returns true and
  changes nothing, whatever \<^verbatim>\<open>rate_limit\<close> the trigger has; so every fire of an enabled
  trigger is executed: \<^verbatim>\<open>executions\<close> grows and every action is run.
\<close>

theorem no_redis_no_rate_limit:
  assumes "redis_client h = None"
  shows "check_rate_limit now h t = (True, h) \<and>
    (enabled t \<longrightarrow>
       executions (stats_of (fst (execute_trigger w now h t p)) (name t)) =
         executions (stats_of h (name t)) + 1 \<and>
       length (snd (execute_trigger w now h t p)) = length (actions t) \<and>
       (\<forall>i < length (actions t).
          snd (execute_trigger w now h t p) ! i = snd (execute_action (w i) (actions t ! i) p)))"
proof -
  have c: "check_rate_limit now h t = (True, h)"
    using assms by (simp add: check_rate_limit_def split: option.splits)
  show ?thesis
    using c by (auto simp: execute_trigger_accepted[OF _ c] stats_of_def)
qed

lemma upt4: "[0..<4] = [0, 1, 2, 3]" by (simp add: upt_rec)

lemma pagerduty_accepted: "fst (execute_action (accepting 0) pagerduty_action p) = Inr ()"
  by (simp add: execute_action_def pagerduty_action_def upt4 try_action_def
      execute_http_action_def answer_def accepting_def)

lemma alerts_raises: "fst (execute_action w alerts_action p) = Inl TypeError"
  by (simp add: execute_action_def alerts_action_def upt4 try_action_redis split_beta)

theorem trigger_fan_out_witness:
  "enabled critical_alert \<and>
   fst (check_rate_limit 0 (initialized []) critical_alert) \<and>
   outcome accepting critical_alert severe 0 = Inr () \<and>
   outcome accepting critical_alert severe 1 = Inl TypeError \<and>
   length (snd (execute_trigger accepting 0 (initialized []) critical_alert severe)) = 2 \<and>
   executions (stats_of (fst (execute_trigger accepting 0 (initialized []) critical_alert
     severe)) ''critical-alert'') = 1 \<and>
   successes (stats_of (fst (execute_trigger accepting 0 (initialized []) critical_alert
     severe)) ''critical-alert'') = 1 \<and>
   failures (stats_of (fst (execute_trigger accepting 0 (initialized []) critical_alert
     severe)) ''critical-alert'') = 1"
proof -
  have e: "enabled critical_alert" by (simp add: critical_alert_def)
  have g: "fst (check_rate_limit 0 (initialized []) critical_alert)"
    by (simp add: check_rate_limit_def critical_alert_def initialized_def redis_get_def live_def
        Let_def)
  have a: "actions critical_alert = [pagerduty_action, alerts_action]"
    "name critical_alert = ''critical-alert''"
    by (simp_all add: critical_alert_def)
  have up: "[0..<2] = [0, Suc 0]" by (simp add: upt_rec)
  have s: "stats_of (initialized []) ''critical-alert'' =
      \<lparr>executions = 0, successes = 0, failures = 0\<rparr>"
    by (simp add: stats_of_def initialized_def)
  have o: "outcome accepting critical_alert severe 0 = Inr ()"
    "outcome accepting critical_alert severe (Suc 0) = Inl TypeError"
    by (simp_all add: outcome_def a pagerduty_accepted alerts_raises)
  from trigger_fan_out[OF e g, of accepting severe] e g o
  show ?thesis
    by (simp add: a up s is_exception_def)
qed

theorem no_redis_no_rate_limit_witness:
  "redis_client (constructed []) = None \<and> rate_limit critical_alert = Some 10 \<and>
   enabled critical_alert \<and>
   check_rate_limit 0 (constructed []) critical_alert = (True, constructed []) \<and>
   executions (stats_of (fst (execute_trigger accepting 0 (constructed []) critical_alert
     (alert_event [(''severity'', PInt 9)]))) ''critical-alert'') = 1 \<and>
   length (snd (execute_trigger accepting 0 (constructed []) critical_alert
     (alert_event [(''severity'', PInt 9)]))) = 2"
proof -
  have r: "redis_client (constructed []) = None" by (simp add: constructed_def)
  have e: "enabled critical_alert" "rate_limit critical_alert = Some 10"
    "actions critical_alert = [pagerduty_action, alerts_action]"
    "name critical_alert = ''critical-alert''"
    by (simp_all add: critical_alert_def)
  have s: "stats_of (constructed []) ''critical-alert'' =
      \<lparr>executions = 0, successes = 0, failures = 0\<rparr>"
    by (simp add: stats_of_def constructed_def)
  from no_redis_no_rate_limit[OF r, of 0 critical_alert accepting
      "alert_event [(''severity'', PInt 9)]"] r e
  show ?thesis by (simp add: s)
qed

text \<open>
  C3. The claim: an action of a type the dispatcher does not implement is an immediate
  action failure, counted in the \<^verbatim>\<open>failures\<close> of its trigger. The code takes the final
  \<^verbatim>\<open>else\<close> of the dispatcher, logs the warning \<^verbatim>\<open>Unknown action type\<close> and returns before
  its own success log line; since nothing is raised, \<^verbatim>\<open>gather\<close> hands back a normal
  result and the trigger adds the action to \<^verbatim>\<open>successes\<close>: a trigger whose only action
  has type \<^verbatim>\<open>email\<close> ends with one success and no failure.
\<close>

theorem unknown_type_counted_as_success:
  "execute_action (accepting 0) email_action severe =
     (Inr (), [Log_warning_unknown_type EMAIL]) \<and>
   execute_trigger accepting 0 (initialized [(''mail-ops'', email_trigger)]) email_trigger severe =
     ((initialized [(''mail-ops'', email_trigger)])
        \<lparr>trigger_stats := (trigger_stats (initialized [(''mail-ops'', email_trigger)]))
           (''mail-ops'' \<mapsto> \<lparr>executions = 1, successes = 1, failures = 0\<rparr>)\<rparr>,
      [[Log_warning_unknown_type EMAIL]])"
proof -
  have a: "execute_action (accepting 0) email_action severe =
     (Inr (), [Log_warning_unknown_type EMAIL])"
    by (simp add: execute_action_def email_action_def upt4 try_action_def)
  show ?thesis
    by (simp add: a execute_trigger_def email_trigger_def check_rate_limit_def stats_of_def
        initialized_def enumerate_eq_zip is_exception_def)
qed

section \<open>Disabled triggers\<close>

lemma matching_triggers_subset:
  "matching_triggers trs p = Inr ms \<Longrightarrow> set ms \<subseteq> snd ` set trs"
proof (induction trs arbitrary: ms)
  case Nil
  then show ?case by simp
next
  case (Cons kt trs)
  obtain k t where kt: "kt = (k, t)" by (cases kt)
  from Cons.prems kt obtain b ms' where
    "matching_triggers trs p = Inr ms'" "ms = (if b then t # ms' else ms')"
    by (auto split: sum.splits)
  with Cons.IH[of ms'] kt show ?case by (auto split: if_splits)
qed

lemma execute_trigger_disabled: "\<not> enabled t \<Longrightarrow> execute_trigger w now h t p = (h, [])"
  by (simp add: execute_trigger_def)

lemma execute_trigger_other:
  "name t \<noteq> n \<Longrightarrow> trigger_stats (fst (execute_trigger w now h t p)) n = trigger_stats h n"
  using check_rate_limit_stats[of now h t]
  by (cases "check_rate_limit now h t")
     (auto simp: execute_trigger_def Let_def split: bool.splits)

lemma execute_all_disabled:
  "(\<forall>t' \<in> set ms. name t' = n \<longrightarrow> \<not> enabled t') \<Longrightarrow>
   trigger_stats (fst (execute_all w clock h ms p)) n = trigger_stats h n \<and>
   (\<forall>(m, es) \<in> set (snd (execute_all w clock h ms p)). m = n \<longrightarrow> es = [])"
proof (induction ms arbitrary: h)
  case Nil
  then show ?case by simp
next
  case (Cons t ms)
  let ?h1 = "fst (execute_trigger (w (name t)) (clock (name t)) h t p)"
  have IH: "trigger_stats (fst (execute_all w clock ?h1 ms p)) n = trigger_stats ?h1 n \<and>
   (\<forall>(m, es) \<in> set (snd (execute_all w clock ?h1 ms p)). m = n \<longrightarrow> es = [])"
    using Cons.IH[of ?h1] Cons.prems by simp
  show ?case
  proof (cases "name t = n")
    case True
    then have "\<not> enabled t" using Cons.prems by simp
    then show ?thesis using IH by (simp add: execute_trigger_disabled split_beta)
  next
    case False
    then show ?thesis using IH execute_trigger_other[OF False]
      by (simp add: split_beta)
  qed
qed

text \<open>
  C8. A disabled trigger of the registry is never executed: \<^verbatim>\<open>_execute_trigger\<close> returns
  at once, leaving the handler as it was and dispatching nothing, and after
  \<^verbatim>\<open>process_event\<close> the statistics of the trigger are what they were and nothing was
  dispatched under its name, whether or not its conditions match the event.
\<close>

theorem disabled_trigger_never_dispatched:
  assumes "registry_ok (triggers h)" and "(k, t) \<in> set (triggers h)" and "\<not> enabled t"
  shows "(\<forall>ws now h0. execute_trigger ws now h0 t p = (h0, [])) \<and>
    (\<forall>h' out. process_event w clock h p = Inr (h', out) \<longrightarrow>
       trigger_stats h' (name t) = trigger_stats h (name t) \<and>
       (\<forall>(n, es) \<in> set out. n = name t \<longrightarrow> es = []))"
proof -
  have A: "\<forall>ws now h0. execute_trigger ws now h0 t p = (h0, [])"
    using assms(3) by (simp add: execute_trigger_disabled)
  have B: "\<forall>h' out. process_event w clock h p = Inr (h', out) \<longrightarrow>
       trigger_stats h' (name t) = trigger_stats h (name t) \<and>
       (\<forall>(n, es) \<in> set out. n = name t \<longrightarrow> es = [])"
  proof (intro allI impI)
    fix h' out
    assume pe: "process_event w clock h p = Inr (h', out)"
    then obtain ms where ms: "matching_triggers (triggers h) p = Inr ms"
      and ex: "execute_all w clock h ms p = (h', out)"
      by (auto simp: process_event_def split: sum.splits)
    have "\<forall>t' \<in> set ms. name t' = name t \<longrightarrow> \<not> enabled t'"
    proof (intro ballI impI)
      fix t' assume t': "t' \<in> set ms" and nm: "name t' = name t"
      then obtain k' where k': "(k', t') \<in> set (triggers h)"
        using matching_triggers_subset[OF ms] by auto
      have "name t' = k'" "name t = k"
        using assms(1,2) k' by (auto simp: registry_ok_def)
      with nm have "k' = k" by simp
      moreover have "distinct (map fst (triggers h))" using assms(1) by (simp add: registry_ok_def)
      ultimately have "t' = t" using k' assms(2) by (metis eq_key_imp_eq_value)
      then show "\<not> enabled t'" using assms(3) by simp
    qed
    from execute_all_disabled[OF this, of w clock h p] ex
    show "trigger_stats h' (name t) = trigger_stats h (name t) \<and>
       (\<forall>(n, es) \<in> set out. n = name t \<longrightarrow> es = [])"
      by simp
  qed
  show ?thesis using A B by blast
qed

theorem disabled_trigger_never_dispatched_witness:
  "registry_ok [(''critical-alert'', disabled_alert), (''mail-ops'', email_trigger)] \<and>
   \<not> enabled disabled_alert \<and>
   evaluate_conditions (conditions disabled_alert) (alert_event [(''severity'', PInt 9)]) = Inr True \<and>
   (case process_event (\<lambda>n. accepting) (\<lambda>n. 0)
           (initialized [(''critical-alert'', disabled_alert), (''mail-ops'', email_trigger)])
           (alert_event [(''severity'', PInt 9)]) of
      Inl e \<Rightarrow> False
    | Inr (h', out) \<Rightarrow>
        trigger_stats h' ''critical-alert'' = None \<and>
        executions (stats_of h' ''mail-ops'') = 1 \<and>
        out = [(''critical-alert'', []), (''mail-ops'', [[Log_warning_unknown_type EMAIL]])])"
proof -
  let ?trs = "[(''critical-alert'', disabled_alert), (''mail-ops'', email_trigger)]"
  let ?ev = "alert_event [(''severity'', PInt 9)]"
  have ok: "registry_ok (triggers (initialized ?trs))"
    by (simp add: registry_ok_def initialized_def disabled_alert_def critical_alert_def
        email_trigger_def)
  have mem: "(''critical-alert'', disabled_alert) \<in> set (triggers (initialized ?trs))"
    by (simp add: initialized_def)
  have dis: "\<not> enabled disabled_alert" by (simp add: disabled_alert_def)
  have c: "evaluate_conditions (conditions disabled_alert) ?ev = Inr True"
    by (simp add: disabled_alert_def critical_alert_def evaluate_condition_def
        extract_value_def alert_event_def py_eq_atom_def py_compare_atom_def)
  have m: "matching_triggers ?trs ?ev = Inr [disabled_alert, email_trigger]"
    using c by (simp add: email_trigger_def)
  obtain h' out where pe: "process_event (\<lambda>n. accepting) (\<lambda>n. 0) (initialized ?trs) ?ev = Inr (h', out)"
    using m by (cases "execute_all (\<lambda>n. accepting) (\<lambda>n. 0) (initialized ?trs) [disabled_alert, email_trigger] ?ev")
      (simp add: process_event_def initialized_def)
  have n: "name disabled_alert = ''critical-alert''"
    by (simp add: disabled_alert_def critical_alert_def)
  from disabled_trigger_never_dispatched[OF ok mem dis, of ?ev "\<lambda>n. accepting" "\<lambda>n. 0",
      THEN conjunct2, rule_format, OF pe]
  have st: "trigger_stats h' ''critical-alert'' = None"
    by (simp add: n initialized_def)
  have ex: "execute_all (\<lambda>n. accepting) (\<lambda>n. 0) (initialized ?trs) [disabled_alert, email_trigger] ?ev
      = (h', out)"
    using pe m by (simp add: process_event_def initialized_def)
  have ea: "execute_action (accepting 0) email_action ?ev =
     (Inr (), [Log_warning_unknown_type EMAIL])"
    by (simp add: execute_action_def email_action_def upt4 try_action_def)
  have et: "execute_trigger accepting 0 (initialized ?trs) email_trigger ?ev =
     ((initialized ?trs)\<lparr>trigger_stats := (trigger_stats (initialized ?trs))(''mail-ops'' \<mapsto>
        \<lparr>executions = 1, successes = 1, failures = 0\<rparr>)\<rparr>,
      [[Log_warning_unknown_type EMAIL]])"
    by (simp add: ea execute_trigger_def email_trigger_def check_rate_limit_def stats_of_def
        initialized_def enumerate_eq_zip is_exception_def)
  have "executions (stats_of h' ''mail-ops'') = 1 \<and> out = [(''critical-alert'', []), (''mail-ops'', [[Log_warning_unknown_type EMAIL]])]"
    using ex et dis n by (auto simp: execute_trigger_disabled email_trigger_def stats_of_def)
  then show ?thesis using ok dis c pe st by (simp add: initialized_def)
qed

section \<open>Rate limit\<close>

lemma gate_fresh:
  assumes "redis_client h = Some r" and "rate_limit t = Some N" and "N \<noteq> 0"
    and "redis_get r now (rate_limit_key t) = None"
  shows "check_rate_limit now h t =
    (True, h\<lparr>redis_client := Some (r(rate_limit_key t \<mapsto> (1, Some (now + 60000))))\<rparr>)"
proof -
  have l: "live r now (rate_limit_key t) = None"
    using assms(4) by (simp add: redis_get_def)
  have i: "redis_incr r now (rate_limit_key t) = r(rate_limit_key t \<mapsto> (1, None))"
    using l by (simp add: redis_incr_def)
  have e: "redis_expire (r(rate_limit_key t \<mapsto> (1, None))) now (rate_limit_key t) 60
      = r(rate_limit_key t \<mapsto> (1, Some (now + 60000)))"
    by (simp add: redis_expire_def live_def)
  show ?thesis
    using assms by (simp add: check_rate_limit_def Let_def i e)
qed

lemma gate_below:
  assumes "redis_client h = Some r" and "rate_limit t = Some N" and "N \<noteq> 0"
    and "r (rate_limit_key t) = Some (c, Some ex)" and "now \<le> ex" and "c < N"
  shows "check_rate_limit now h t =
    (True, h\<lparr>redis_client := Some (r(rate_limit_key t \<mapsto> (c + 1, Some (now + 60000))))\<rparr>)"
proof -
  have l: "live r now (rate_limit_key t) = Some (c, Some ex)"
    using assms(4,5) by (simp add: live_def)
  have i: "redis_incr r now (rate_limit_key t) = r(rate_limit_key t \<mapsto> (c + 1, Some ex))"
    using l by (simp add: redis_incr_def)
  have e: "redis_expire (r(rate_limit_key t \<mapsto> (c + 1, Some ex))) now (rate_limit_key t) 60
      = r(rate_limit_key t \<mapsto> (c + 1, Some (now + 60000)))"
    using assms(5) by (simp add: redis_expire_def live_def)
  show ?thesis
    using assms l by (simp add: check_rate_limit_def Let_def i e redis_get_def)
qed



lemma execute_trigger_redis:
  "enabled t \<Longrightarrow> check_rate_limit now h t = (True, h') \<Longrightarrow>
   redis_client (fst (execute_trigger w now h t p)) = redis_client h' \<and>
   executions (stats_of (fst (execute_trigger w now h t p)) (name t)) =
     executions (stats_of h (name t)) + 1 \<and>
   length (snd (execute_trigger w now h t p)) = length (actions t)"
  by (simp add: execute_trigger_accepted stats_of_def)







section \<open>Cooldown\<close>

text \<open>
  C1. The claim: with \<^verbatim>\<open>cooldown\<close> \<open>= T\<close>, a second fire less than \<open>T\<close> after a fire is
  rejected by the gate although the rate limit has headroom. The code never reads
  \<^verbatim>\<open>cooldown\<close>: the default trigger \<^verbatim>\<open>critical-alert\<close> (\<^verbatim>\<open>cooldown=300.0\<close>, ten fires
  per minute), fired at time 0 and again one second later on an initialised handler,
  passes the gate both times, and the second fire runs both actions exactly as the first
  did (the http action calls its sink, the redis action fails in \<^verbatim>\<open>json.dumps\<close> at each
  of its four attempts).
\<close>

theorem cooldown_not_enforced:
  "cooldown critical_alert = Some 300 \<and> rate_limit critical_alert = Some 10 \<and>
   fst (check_rate_limit 1000
     (fst (execute_trigger accepting 0 (initialized []) critical_alert severe)) critical_alert) \<and>
   snd (fire_sequence (initialized []) critical_alert
     [(0, severe, accepting), (1000, severe, accepting)]) =
     [[[Call (HttpPost ''https://api.pagerduty.com/incidents''
          [(''urgency'', PStr ''high''), (''event'', event_dict severe)]
          [(''Authorization'', ''Token ${PAGERDUTY_TOKEN}'')] 30),
        Log_info_executed HTTP ''https://api.pagerduty.com/incidents''],
       [Call (JsonDumps [(''alert_level'', PStr ''P1''), (''event'', event_dict severe)]),
        Log_error_failed 1 TypeError, Sleep 1,
        Call (JsonDumps [(''alert_level'', PStr ''P1''), (''event'', event_dict severe)]),
        Log_error_failed 2 TypeError, Sleep 2,
        Call (JsonDumps [(''alert_level'', PStr ''P1''), (''event'', event_dict severe)]),
        Log_error_failed 3 TypeError, Sleep 4,
        Call (JsonDumps [(''alert_level'', PStr ''P1''), (''event'', event_dict severe)]),
        Log_error_failed 4 TypeError]],
      [[Call (HttpPost ''https://api.pagerduty.com/incidents''
          [(''urgency'', PStr ''high''), (''event'', event_dict severe)]
          [(''Authorization'', ''Token ${PAGERDUTY_TOKEN}'')] 30),
        Log_info_executed HTTP ''https://api.pagerduty.com/incidents''],
       [Call (JsonDumps [(''alert_level'', PStr ''P1''), (''event'', event_dict severe)]),
        Log_error_failed 1 TypeError, Sleep 1,
        Call (JsonDumps [(''alert_level'', PStr ''P1''), (''event'', event_dict severe)]),
        Log_error_failed 2 TypeError, Sleep 2,
        Call (JsonDumps [(''alert_level'', PStr ''P1''), (''event'', event_dict severe)]),
        Log_error_failed 3 TypeError, Sleep 4,
        Call (JsonDumps [(''alert_level'', PStr ''P1''), (''event'', event_dict severe)]),
        Log_error_failed 4 TypeError]]] \<and>
   executions (stats_of (fst (fire_sequence (initialized []) critical_alert
     [(0, severe, accepting), (1000, severe, accepting)])) ''critical-alert'') = 2"
proof -
  let ?h1 = "fst (execute_trigger accepting 0 (initialized []) critical_alert severe)"
  let ?r1 = "Map.empty(rate_limit_key critical_alert \<mapsto> (1::int, Some (0 + 60000::int)))"
  let ?T = "[[Call (HttpPost ''https://api.pagerduty.com/incidents''
          [(''urgency'', PStr ''high''), (''event'', event_dict severe)]
          [(''Authorization'', ''Token ${PAGERDUTY_TOKEN}'')] 30),
        Log_info_executed HTTP ''https://api.pagerduty.com/incidents''],
       [Call (JsonDumps [(''alert_level'', PStr ''P1''), (''event'', event_dict severe)]),
        Log_error_failed 1 TypeError, Sleep 1,
        Call (JsonDumps [(''alert_level'', PStr ''P1''), (''event'', event_dict severe)]),
        Log_error_failed 2 TypeError, Sleep 2,
        Call (JsonDumps [(''alert_level'', PStr ''P1''), (''event'', event_dict severe)]),
        Log_error_failed 3 TypeError, Sleep 4,
        Call (JsonDumps [(''alert_level'', PStr ''P1''), (''event'', event_dict severe)]),
        Log_error_failed 4 TypeError]]"
  have e: "enabled critical_alert" "rate_limit critical_alert = Some 10"
    "name critical_alert = ''critical-alert''" "cooldown critical_alert = Some 300"
    "actions critical_alert = [pagerduty_action, alerts_action]"
    by (simp_all add: critical_alert_def)
  have c: "redis_client (initialized []) = Some Map.empty" by (simp add: initialized_def)
  have f: "redis_get Map.empty 0 (rate_limit_key critical_alert) = None"
    by (simp add: redis_get_def live_def)
  have n: "(10::int) \<noteq> 0" by simp
  note g0 = gate_fresh[OF c e(2) n f]
  note X0 = execute_trigger_accepted[OF e(1) g0, of accepting severe]
  have r1: "redis_client ?h1 = Some ?r1" using X0 by simp
  have k1: "?r1 (rate_limit_key critical_alert) = Some (1, Some (0 + 60000))" by simp
  have g1: "check_rate_limit 1000 ?h1 critical_alert =
      (True, ?h1\<lparr>redis_client :=
         Some (?r1(rate_limit_key critical_alert \<mapsto> (1 + 1, Some (1000 + 60000))))\<rparr>)"
  proof -
    have a: "(1000::int) \<le> 0 + 60000" and b: "(1::int) < 10" by simp_all
    show ?thesis by (rule gate_below[OF r1 e(2) n k1 a b])
  qed
  note X1 = execute_trigger_accepted[OF e(1) g1, of accepting severe]
  have up: "[0..<2] = [0, Suc 0]" by (simp add: upt_rec)
  have a0: "snd (execute_action (accepting 0) pagerduty_action severe) =
     [Call (HttpPost ''https://api.pagerduty.com/incidents''
          [(''urgency'', PStr ''high''), (''event'', event_dict severe)]
          [(''Authorization'', ''Token ${PAGERDUTY_TOKEN}'')] 30),
      Log_info_executed HTTP ''https://api.pagerduty.com/incidents'']"
    by (simp add: execute_action_def pagerduty_action_def upt4 try_action_def
        execute_http_action_def answer_def accepting_def merged_payload_def)
  have m1: "merged_payload alerts_action severe =
      [(''alert_level'', PStr ''P1''), (''event'', event_dict severe)]"
    by (simp add: merged_payload_def alerts_action_def)
  have a1: "snd (execute_action (accepting (Suc 0)) alerts_action severe) =
     [Call (JsonDumps [(''alert_level'', PStr ''P1''), (''event'', event_dict severe)]),
        Log_error_failed 1 TypeError, Sleep 1,
        Call (JsonDumps [(''alert_level'', PStr ''P1''), (''event'', event_dict severe)]),
        Log_error_failed 2 TypeError, Sleep 2,
        Call (JsonDumps [(''alert_level'', PStr ''P1''), (''event'', event_dict severe)]),
        Log_error_failed 3 TypeError, Sleep 4,
        Call (JsonDumps [(''alert_level'', PStr ''P1''), (''event'', event_dict severe)]),
        Log_error_failed 4 TypeError]"
  proof -
    have k: "action_type alerts_action = REDIS" "retries alerts_action = 3"
      by (simp_all add: alerts_action_def)
    show ?thesis
      by (simp add: execute_action_def upt4 split_beta try_action_redis[OF k(1)] m1 k(2))
  qed
  have s: "executions (stats_of (initialized []) ''critical-alert'') = 0"
    by (simp add: stats_of_def initialized_def)
  have T0: "snd (execute_trigger accepting 0 (initialized []) critical_alert severe) = ?T"
    unfolding X0 by (simp add: e up a0 a1)
  have T1: "snd (execute_trigger accepting 1000 ?h1 critical_alert severe) = ?T"
    unfolding X1 by (simp add: e up a0 a1)
  have S1: "executions (stats_of ?h1 ''critical-alert'') = 1"
    using execute_trigger_redis[OF e(1) g0, of accepting severe] s by (simp add: e)
  have S2: "executions (stats_of (fst (execute_trigger accepting 1000 ?h1 critical_alert severe))
      ''critical-alert'') = 2"
    using execute_trigger_redis[OF e(1) g1, of accepting severe] S1 by (simp add: e)
  have G: "fst (check_rate_limit 1000 ?h1 critical_alert)"
    unfolding g1 by simp
  show ?thesis
    using G by (simp add: split_beta T0 T1 S2 e)
qed

end
